theory Spec2Isabelle
  imports Main "HOL-Library.Sublist"
begin

section \<open>Text primitives of the Python source\<close>

text \<open>
  A Python \<open>str\<close> is modelled as a \<open>string\<close>: each \<open>char\<close> stands for one code
  point below 256. Files hold such text; decoding errors are outside the model.
\<close>

abbreviation LF :: char where "LF \<equiv> CHR 0x0A"
abbreviation CR :: char where "CR \<equiv> CHR 0x0D"

text \<open>
  \<open>str.isspace\<close> on one character, for the code points below 256: TAB, LF, VT, FF, CR,
  the separators 0x1C to 0x1F, SPACE, NEL (0x85) and NBSP (0xA0).
\<close>

definition isspace :: "char \<Rightarrow> bool" where
  "isspace c = (c \<in> set [CHR 0x09, CHR 0x0A, CHR 0x0B, CHR 0x0C, CHR 0x0D,
                           CHR 0x1C, CHR 0x1D, CHR 0x1E, CHR 0x1F, CHR 0x20,
                           CHR 0x85, CHR 0xA0])"

text \<open>\<open>s.strip()\<close>: leading and trailing whitespace removed.\<close>

definition strip :: "string \<Rightarrow> string" where
  "strip s = rev (dropWhile isspace (rev (dropWhile isspace s)))"

text \<open>\<open>s.startswith(p)\<close>.\<close>

fun startswith :: "string \<Rightarrow> string \<Rightarrow> bool" where
  "startswith s [] = True"
| "startswith [] (p # ps) = False"
| "startswith (c # cs) (p # ps) = (c = p \<and> startswith cs ps)"

text \<open>\<open>sub in s\<close>: substring containment.\<close>

fun contains :: "string \<Rightarrow> string \<Rightarrow> bool" where
  "contains sub [] = (sub = [])"
| "contains sub (c # cs) = (startswith (c # cs) sub \<or> contains sub cs)"

text \<open>
  Reading in text mode with the default \<open>newline=None\<close>: \<open>\r\n\<close> and a lone \<open>\r\<close>
  both arrive as \<open>\n\<close>.
\<close>

fun translate_newlines :: "string \<Rightarrow> string" where
  "translate_newlines [] = []"
| "translate_newlines [c] = (if c = CR then [LF] else [c])"
| "translate_newlines (c # d # cs) =
     (if c = CR \<and> d = LF then LF # translate_newlines cs
      else if c = CR then LF # translate_newlines (d # cs)
      else c # translate_newlines (d # cs))"

text \<open>
  The lines of a text as a file object yields them: each line keeps its terminating
  \<open>\n\<close>; only the last one may lack it.
\<close>

fun splitlines :: "string \<Rightarrow> string list" where
  "splitlines [] = []"
| "splitlines (c # cs) =
     (if c = LF then [c] # splitlines cs
      else (case splitlines cs of [] \<Rightarrow> [[c]] | l # ls \<Rightarrow> (c # l) # ls))"

text \<open>\<open>f.readlines()\<close> on a file opened with mode \<open>"r"\<close>.\<close>

definition readlines :: "string \<Rightarrow> string list" where
  "readlines content = splitlines (translate_newlines content)"

section \<open>The rewrite of the configuration (\<open>configure_proxychains\<close>, lines 96 to 116)\<close>

text \<open>
  The file opened with mode \<open>"w"\<close> is modelled by the list of the texts passed to
  \<open>f.write\<close>, in order; the file's content after the \<open>with\<close> block is their
  concatenation (on the target platform \<open>\n\<close> is written as it is).

  The \<open>for\<close> loop over \<open>lines\<close>, with the writes so far and \<open>found_proxy_list\<close>.
\<close>

fun rewrite_loop :: "string list \<Rightarrow> string list \<times> bool \<Rightarrow> string list \<times> bool" where
  "rewrite_loop [] (f, found_proxy_list) = (f, found_proxy_list)"
| "rewrite_loop (line # lines) (f, found_proxy_list) =
     (if startswith (strip line) ''socks'' \<or> startswith (strip line) ''http''
        then rewrite_loop lines (f @ [''# '' @ line], found_proxy_list)
      else if contains ''[ProxyList]'' line
        then rewrite_loop lines (f @ [line], True)
      else rewrite_loop lines (f @ [line], found_proxy_list))"

text \<open>The writes after the loop (lines 110 to 116).\<close>

definition rewrite_tail :: "bool \<Rightarrow> string list" where
  "rewrite_tail found_proxy_list =
     (if found_proxy_list then [''socks5 127.0.0.1 9050'' @ [LF]]
      else [[LF] @ ''[ProxyList]'' @ [LF], ''socks5 127.0.0.1 9050'' @ [LF]])"

text \<open>All writes of the \<open>with open(config_file, "w")\<close> block, given the lines read.\<close>

definition rewrite_writes :: "string list \<Rightarrow> string list" where
  "rewrite_writes lines =
     (case rewrite_loop lines ([], False) of
        (f, found_proxy_list) \<Rightarrow> f @ rewrite_tail found_proxy_list)"

text \<open>The new content of the configuration file, from its old content.\<close>

definition rewrite_config :: "string \<Rightarrow> string" where
  "rewrite_config content = concat (rewrite_writes (readlines content))"

section \<open>The process and its environment\<close>

text \<open>
  What ends a run early: \<open>sys.exit(n)\<close>, or an exception that nothing catches.
\<close>

datatype exn = SystemExit int | EOFError | FileNotFoundError string

text \<open>
  The state the script runs in. \<open>fs\<close> maps the path of each existing regular file to
  its text (directories, permissions and I/O failures are outside the model);
  \<open>ext\<close> is whatever else the external commands act on (package database, services,
  network); \<open>stdout\<close> holds the argument of every \<open>print\<close> call of the script, in
  order; \<open>stdin\<close> the lines still to be read. \<open>ran\<close> is a ghost field: every
  command given to \<open>subprocess.run\<close>, with the \<open>check\<close> flag of the call and the
  return code.
\<close>

record 'e world =
  euid :: nat
  stdin :: "string list"
  stdout :: "string list"
  fs :: "string \<rightharpoonup> string"
  ext :: 'e
  ran :: "(string \<times> bool \<times> int) list"

text \<open>
  The external commands are a parameter: the shell maps a command line and the state
  it acts on to a return code and the state it leaves.
\<close>

type_synonym 'e shell =
  "string \<Rightarrow> (string \<rightharpoonup> string) \<times> 'e \<Rightarrow> int \<times> (string \<rightharpoonup> string) \<times> 'e"

type_synonym 'e stmt = "'e world \<Rightarrow> (exn + unit) \<times> 'e world"

text \<open>Statements in sequence: the first one that raises ends the block.\<close>

fun run_all :: "'e stmt list \<Rightarrow> 'e stmt" where
  "run_all [] w = (Inr (), w)"
| "run_all (m # ms) w =
     (case m w of (Inl e, w') \<Rightarrow> (Inl e, w') | (Inr u, w') \<Rightarrow> run_all ms w')"

definition print :: "string \<Rightarrow> 'e stmt" where
  "print text w = (Inr (), w\<lparr>stdout := stdout w @ [text]\<rparr>)"

definition sys_exit :: "int \<Rightarrow> 'e stmt" where
  "sys_exit n w = (Inl (SystemExit n), w)"

text \<open>\<open>input()\<close>, its value unused: one line is consumed; at end of input it raises.\<close>

definition input :: "'e stmt" where
  "input w = (case stdin w of [] \<Rightarrow> (Inl EOFError, w)
              | l # ls \<Rightarrow> (Inr (), w\<lparr>stdin := ls\<rparr>))"

definition os_remove :: "string \<Rightarrow> 'e stmt" where
  "os_remove path w =
     (case fs w path of None \<Rightarrow> (Inl (FileNotFoundError path), w)
      | Some c \<Rightarrow> (Inr (), w\<lparr>fs := (fs w)(path := None)\<rparr>))"

text \<open>\<open>with open(path, "w") as f: f.write(text)\<close>.\<close>

definition write_file :: "string \<Rightarrow> string \<Rightarrow> 'e stmt" where
  "write_file path text w = (Inr (), w\<lparr>fs := (fs w)(path \<mapsto> text)\<rparr>)"

definition copyfile :: "string \<Rightarrow> string \<Rightarrow> 'e stmt" where
  "copyfile src dst w =
     (case fs w src of None \<Rightarrow> (Inl (FileNotFoundError src), w)
      | Some c \<Rightarrow> (Inr (), w\<lparr>fs := (fs w)(dst \<mapsto> c)\<rparr>))"

text \<open>\<open>str(n)\<close> for an integer, as the f-string of \<open>run_cmd\<close> renders the return code.\<close>

fun str_nat :: "nat \<Rightarrow> string" where
  "str_nat n = (if n < 10 then [''0123456789'' ! n]
                else str_nat (n div 10) @ [''0123456789'' ! (n mod 10)])"

declare str_nat.simps [simp del]

definition str_int :: "int \<Rightarrow> string" where
  "str_int i = (if i < 0 then ''-'' @ str_nat (nat (- i)) else str_nat (nat i))"

subsection \<open>\<open>run_cmd\<close> (lines 10 to 20)\<close>

text \<open>
  The value is the return code of the completed process; with \<open>check\<close> set and a
  non-zero return code the call does not return.
\<close>

definition run_cmd :: "'e shell \<Rightarrow> string \<Rightarrow> bool \<Rightarrow> 'e world \<Rightarrow> (exn + int) \<times> 'e world" where
  "run_cmd sh command check w =
     (let w1 = w\<lparr>stdout := stdout w @ [''\<newline>-> Running: '' @ command]\<rparr>;
          (returncode, fs', ext') = sh command (fs w1, ext w1);
          w2 = w1\<lparr>fs := fs', ext := ext',
                  ran := ran w1 @ [(command, check, returncode)]\<rparr>
      in if check \<and> returncode \<noteq> 0
         then (Inl (SystemExit 1),
               w2\<lparr>stdout := stdout w2 @
                  [''[ERROR] Command failed with exit code '' @ str_int returncode
                     @ '': '' @ command]\<rparr>)
         else (Inr returncode, w2))"

text \<open>A call of \<open>run_cmd\<close> as a statement, its value dropped as every caller does.\<close>

definition cmd :: "'e shell \<Rightarrow> string \<Rightarrow> bool \<Rightarrow> 'e stmt" where
  "cmd sh command check w =
     (case run_cmd sh command check w of
        (Inl e, w') \<Rightarrow> (Inl e, w') | (Inr r, w') \<Rightarrow> (Inr (), w'))"

text \<open>\<open>if os.path.exists(path): print(message); os.remove(path)\<close>.\<close>

definition remove_if_exists :: "string \<Rightarrow> string \<Rightarrow> 'e stmt" where
  "remove_if_exists path message w =
     (if fs w path \<noteq> None then run_all [print (message @ path), os_remove path] w
      else (Inr (), w))"

subsection \<open>Step 1: \<open>cleanup_existing_install\<close> (lines 23 to 47)\<close>

definition cleanup_existing_install :: "'e shell \<Rightarrow> 'e stmt" where
  "cleanup_existing_install sh = run_all
     [print ''\<newline>[Step 1] Cleaning up old Tor and Tor Browser installations...'',
      cmd sh ''apt purge -y tor torbrowser-launcher'' False,
      remove_if_exists ''/etc/apt/sources.list.d/torproject.list''
        ''Removing old repository file: '',
      remove_if_exists ''/usr/share/keyrings/tor-archive-keyring.gpg''
        ''Removing old GPG key: '',
      cmd sh ''apt autoremove -y'' True,
      cmd sh ''apt update'' True,
      print ''Cleanup complete.'']"

subsection \<open>Step 2: \<open>install_tor_and_proxychains\<close> (lines 50 to 75)\<close>

definition key_cmd :: string where
  "key_cmd =
     ''wget -qO- https://deb.torproject.org/torproject.org/A3C4F0F979CAA22CDBA8F512EE8CBC9E886DDD89.asc | ''
     @ ''gpg --dearmor | tee /usr/share/keyrings/tor-archive-keyring.gpg >/dev/null''"

definition repo_line :: string where
  "repo_line = ''deb [signed-by=/usr/share/keyrings/tor-archive-keyring.gpg] https://deb.torproject.org/torproject.org bookworm main''"

definition install_tor_and_proxychains :: "'e shell \<Rightarrow> 'e stmt" where
  "install_tor_and_proxychains sh = run_all
     [print ''\<newline>[Step 2] Installing Tor and ProxyChains...'',
      print ''-> Downloading and adding Tor GPG key...'',
      cmd sh key_cmd True,
      cmd sh ''chmod 644 /usr/share/keyrings/tor-archive-keyring.gpg'' True,
      print ''-> Adding Tor repository for Debian 12 (bookworm)...'',
      write_file ''/etc/apt/sources.list.d/torproject.list'' (repo_line @ ''\<newline>''),
      print ''-> Updating package list and installing Tor and ProxyChains...'',
      cmd sh ''apt update'' True,
      cmd sh ''apt install -y tor proxychains4'' True,
      print ''Tor and ProxyChains installation complete.'']"

subsection \<open>Step 3: \<open>configure_proxychains\<close> (lines 78 to 118)\<close>

definition config_file :: string where
  "config_file = ''/etc/proxychains4.conf''"

definition backup_file :: string where
  "backup_file = config_file @ ''.bak''"

text \<open>
  Lines 93 to 116: the file is read, then opened for writing and rewritten. The message
  of line 111 or 114 is printed between the writes to the file; the file holds all
  writes once the block is left.
\<close>

definition rewrite_block :: "'e stmt" where
  "rewrite_block w =
     (case fs w config_file of
        None \<Rightarrow> (Inl (FileNotFoundError config_file), w)
      | Some content \<Rightarrow>
          (let lines = readlines content;
               (f, found_proxy_list) = rewrite_loop lines ([], False)
           in run_all
                [print (if found_proxy_list
                        then ''-> Adding Tor SOCKS5 proxy to the configuration.''
                        else ''[WARNING] Could not find '[ProxyList]' section in config file. ''
                             @ ''Adding to the end.''),
                 write_file config_file (concat (f @ rewrite_tail found_proxy_list))] w))"

definition configure_proxychains :: "'e stmt" where
  "configure_proxychains = run_all
     [print ''\<newline>[Step 3] Configuring ProxyChains...'',
      (\<lambda>w. if fs w config_file = None
            then run_all
                   [print (''[ERROR] ProxyChains configuration file not found at ''
                             @ config_file),
                    sys_exit 1] w
            else (Inr (), w)),
      print (''-> Backing up original config to '' @ backup_file),
      copyfile config_file backup_file,
      rewrite_block,
      print ''ProxyChains configuration complete.'']"

subsection \<open>Step 4: \<open>start_tor_and_provide_instructions\<close> (lines 121 to 154)\<close>

definition instructions :: string where
  "instructions =
       ''\<newline>''
       @ ''### How to Manage Tor Services\<newline>''
       @ ''You can control the Tor service using 'systemctl'. These commands require administrative privileges.\<newline>''
       @ ''\<newline>''
       @ ''- **Start Tor:**\<newline>''
       @ ''  sudo systemctl start tor\<newline>''
       @ ''- **Stop Tor:**\<newline>''
       @ ''  sudo systemctl stop tor\<newline>''
       @ ''- **Restart Tor (to get a new IP):**\<newline>''
       @ ''  sudo systemctl restart tor\<newline>''
       @ ''- **Check Tor's status:**\<newline>''
       @ ''  sudo systemctl status tor\<newline>''
       @ ''\<newline>''
       @ ''### How to Run Applications with ProxyChains\<newline>''
       @ ''To run an application through the Tor network, simply use `proxychains` before the command.\<newline>''
       @ ''\<newline>''
       @ ''- **Example: Run Firefox through Tor**\<newline>''
       @ ''  proxychains firefox-esr\<newline>''
       @ ''- **Example: Check your IP address**\<newline>''
       @ ''  proxychains curl ipinfo.io\<newline>''
       @ ''    ''"

text \<open>
  \<open>time.sleep(10)\<close> changes nothing in the state. The check mark U+2705 of the
  message after it is given by its UTF-8 bytes.
\<close>

definition start_tor_and_provide_instructions :: "'e shell \<Rightarrow> 'e stmt" where
  "start_tor_and_provide_instructions sh = run_all
     [print ''\<newline>[Step 4] Starting Tor service and finalizing setup...'',
      cmd sh ''systemctl enable --now tor'' True,
      print ''-> Waiting 10 seconds for Tor to connect to the network...'',
      print (''\<newline>'' @ [CHR 0xE2, CHR 0x9C, CHR 0x85]
               @ '' All done! Tor and ProxyChains are installed and ready to use.''),
      print instructions]"

subsection \<open>\<open>main\<close> (lines 157 to 186) and the exit status of the process\<close>

text \<open>Lines 161 to 177: the banner, the prompt and the check for root.\<close>

definition main_prelude :: "'e stmt" where
  "main_prelude = run_all
     [print ''=== Toxy by incrediBit ==='',
      print ''\<newline>This script will perform the following steps:'',
      print ''1. Clean up any existing Tor installations to ensure a fresh start.'',
      print ''2. Install the latest Tor and ProxyChains packages.'',
      print ''3. Configure ProxyChains to route traffic through the Tor network.'',
      print ''4. Start and enable the Tor service, and provide usage instructions.'',
      print ''\<newline>Press Enter to begin the process...'',
      input,
      (\<lambda>w. if euid w \<noteq> 0
            then run_all
                   [print ''[ERROR] This script must be run as root. Please use 'sudo'.'',
                    sys_exit 1] w
            else (Inr (), w))]"

text \<open>Lines 179 to 186: the four steps and the closing messages.\<close>

definition main :: "'e shell \<Rightarrow> 'e stmt" where
  "main sh = run_all
     [main_prelude,
      cleanup_existing_install sh,
      install_tor_and_proxychains sh,
      configure_proxychains,
      start_tor_and_provide_instructions sh,
      print ''\<newline>Script finished.'',
      print ''Thanks for using Toxy!'',
      print ''@incrediBit'']"

text \<open>
  The exit status of the interpreter: 0 when \<open>main\<close> returns, the argument of
  \<open>sys.exit\<close>, and 1 for an exception that nothing catches.
\<close>

fun exit_status :: "exn + unit \<Rightarrow> int" where
  "exit_status (Inr u) = 0"
| "exit_status (Inl (SystemExit n)) = n"
| "exit_status (Inl EOFError) = 1"
| "exit_status (Inl (FileNotFoundError path)) = 1"

section \<open>Vocabulary of the specification\<close>

text \<open>A directive line: its stripped form starts with \<open>socks\<close> or \<open>http\<close>.\<close>

definition is_directive :: "string \<Rightarrow> bool" where
  "is_directive line =
     (startswith (strip line) ''socks'' \<or> startswith (strip line) ''http'')"

text \<open>A line with the section marker in it.\<close>

definition has_marker :: "string \<Rightarrow> bool" where
  "has_marker line = contains ''[ProxyList]'' line"

text \<open>A directive line in its disabled form.\<close>

definition disabled :: "string \<Rightarrow> string" where
  "disabled line = ''# '' @ line"

text \<open>The directive that the rewrite appends.\<close>

definition tor_line :: string where
  "tor_line = ''socks5 127.0.0.1 9050\<newline>''"

text \<open>A line that ends with its newline.\<close>

definition terminated :: "string \<Rightarrow> bool" where
  "terminated line = (line \<noteq> [] \<and> last line = LF)"

text \<open>A log of commands in which no call with \<open>check\<close> set returned a non-zero code.\<close>

definition all_checked_ok :: "(string \<times> bool \<times> int) list \<Rightarrow> bool" where
  "all_checked_ok log = list_all (\<lambda>(command, check, returncode). \<not> check \<or> returncode = 0) log"

text \<open>
  For the proofs about the exit status: a statement that ends in no other way than by
  returning, by an exit with status 1 or by an exception; and that, when it returns, has
  made no checked call fail.
\<close>

definition sound :: "'e stmt \<Rightarrow> bool" where
  "sound m = (\<forall>w. (fst (m w) = Inr () \<or> exit_status (fst (m w)) = 1) \<and>
                   (all_checked_ok (ran w) \<and> fst (m w) = Inr ()
                      \<longrightarrow> all_checked_ok (ran (snd (m w)))))"

text \<open>What the loop writes for one line.\<close>

definition line_output :: "string \<Rightarrow> string" where
  "line_output line = (if is_directive line then disabled line else line)"

text \<open>A line that the loop takes for the section header.\<close>

definition is_header :: "string \<Rightarrow> bool" where
  "is_header line = (has_marker line \<and> \<not> is_directive line)"

section \<open>Facts about the text primitives and the loop\<close>

text \<open>The two string tests are the library's notions of prefix and contiguous sublist.\<close>

lemma startswith_prefix: "startswith s p \<longleftrightarrow> prefix p s"
  by (induction s p rule: startswith.induct) auto

lemma contains_sublist: "contains sub s \<longleftrightarrow> sublist sub s"
  by (induction s) (auto simp: startswith_prefix sublist_Cons_right)

lemma rewrite_loop_eq:
  "rewrite_loop lines (f, b) =
     (f @ map line_output lines, b \<or> (\<exists>l\<in>set lines. is_header l))"
  by (induction lines arbitrary: f b)
     (auto simp: is_directive_def has_marker_def disabled_def line_output_def is_header_def)

lemma rewrite_writes_eq:
  "rewrite_writes lines =
     map line_output lines @ rewrite_tail (\<exists>l\<in>set lines. is_header l)"
  by (simp add: rewrite_writes_def rewrite_loop_eq)

lemma dropWhile_snoc_keeps:
  "\<not> P c \<Longrightarrow> \<exists>t. dropWhile P (xs @ [c]) = t @ [c]"
  by (simp add: dropWhile_append)

lemma strip_Cons_nonspace:
  assumes "\<not> isspace c"
  shows "\<exists>t. strip (c # s) = c # t"
proof -
  obtain t where "dropWhile isspace (rev s @ [c]) = t @ [c]"
    using dropWhile_snoc_keeps [of isspace c "rev s"] assms by blast
  with assms show ?thesis
    by (simp add: strip_def)
qed

lemma directive_not_disabled: "\<not> is_directive (disabled l)"
proof -
  have "\<not> isspace (CHR ''#'')"
    by (simp add: isspace_def)
  then obtain t where "strip (CHR ''#'' # CHR '' '' # l) = CHR ''#'' # t"
    using strip_Cons_nonspace by blast
  then show ?thesis
    by (simp add: is_directive_def disabled_def)
qed

lemma is_directive_tor_line: "is_directive tor_line"
  by (simp add: is_directive_def tor_line_def strip_def isspace_def)

lemma synthesized_not_directive: "\<not> is_directive ''\<newline>[ProxyList]\<newline>''"
  by (simp add: is_directive_def strip_def isspace_def)

lemma translate_newlines_no_CR: "CR \<notin> set (translate_newlines s)"
  by (induction s rule: translate_newlines.induct) auto

lemma translate_newlines_id: "CR \<notin> set s \<Longrightarrow> translate_newlines s = s"
  by (induction s rule: translate_newlines.induct) auto

lemma concat_splitlines: "concat (splitlines s) = s"
  by (induction s) (auto split: list.splits)

lemma splitlines_nonempty: "l \<in> set (splitlines s) \<Longrightarrow> l \<noteq> []"
  by (induction s arbitrary: l) (auto split: if_splits list.splits)

lemma splitlines_Nil_iff: "splitlines s = [] \<longleftrightarrow> s = []"
  by (cases s) (auto split: list.splits)

lemma splitlines_terminated:
  "LF \<notin> set l \<Longrightarrow> splitlines (l @ LF # s) = (l @ [LF]) # splitlines s"
  by (induction l) auto

lemma splitlines_unterminated_Cons:
  "LF \<notin> set (c # cs) \<Longrightarrow> splitlines (c # cs) = [c # cs]"
  by (induction cs arbitrary: c) auto

lemma splitlines_unterminated:
  "LF \<notin> set l \<Longrightarrow> l \<noteq> [] \<Longrightarrow> splitlines l = [l]"
  using splitlines_unterminated_Cons [of "hd l" "tl l"] by simp

lemma splitlines_lines:
  "l \<in> set (splitlines s) \<Longrightarrow> LF \<notin> set (butlast l)"
  by (induction s arbitrary: l) (auto split: if_splits list.splits)

lemma splitlines_butlast_terminated:
  "l \<in> set (butlast (splitlines s)) \<Longrightarrow> terminated l"
  by (induction s arbitrary: l) (auto split: if_splits list.splits simp: terminated_def splitlines_Nil_iff)

lemma splitlines_last_terminated:
  "s \<noteq> [] \<Longrightarrow> terminated (last (splitlines s)) \<longleftrightarrow> last s = LF"
  by (induction s) (auto split: if_splits list.splits simp: terminated_def splitlines_Nil_iff)

lemma splitlines_fuse:
  "LF \<notin> set l \<Longrightarrow> s \<noteq> [] \<Longrightarrow>
     splitlines (l @ s) = (l @ hd (splitlines s)) # tl (splitlines s)"
  by (induction l) (auto split: list.splits simp: splitlines_Nil_iff)


lemma line_output_not_directive: "\<not> is_directive (line_output l)"
  by (simp add: line_output_def directive_not_disabled)

lemma tor_line_no_marker: "\<not> has_marker tor_line"
  by (simp add: has_marker_def tor_line_def)

lemma has_marker_disabled: "has_marker (disabled l) = has_marker l"
  by (simp add: has_marker_def disabled_def)

section \<open>The claims about the rewrite of the lines\<close>

text \<open>
  C1, as the code has it. The claim gives the header match precedence on a line that
  is a directive line and holds the marker. The loop tests the directive prefix first:
  such a line is written in its disabled form, and whether the section counts as found
  depends on the other lines only.
\<close>

theorem directive_precedence:
  assumes "i < length lines" and "is_directive (lines ! i)" and "has_marker (lines ! i)"
  shows "fst (rewrite_loop lines ([], False)) ! i = disabled (lines ! i) \<and>
         (snd (rewrite_loop lines ([], False)) \<longleftrightarrow>
            (\<exists>j<length lines. j \<noteq> i \<and> has_marker (lines ! j) \<and> \<not> is_directive (lines ! j)))"
proof -
  have "(\<exists>l\<in>set lines. is_header l) \<longleftrightarrow>
        (\<exists>j<length lines. j \<noteq> i \<and> has_marker (lines ! j) \<and> \<not> is_directive (lines ! j))"
  proof
    assume "\<exists>l\<in>set lines. is_header l"
    then obtain j where "j < length lines" and "is_header (lines ! j)"
      by (auto simp: in_set_conv_nth)
    with assms(2) show "\<exists>j<length lines. j \<noteq> i \<and> has_marker (lines ! j)
        \<and> \<not> is_directive (lines ! j)"
      by (auto simp: is_header_def)
  next
    assume "\<exists>j<length lines. j \<noteq> i \<and> has_marker (lines ! j)
        \<and> \<not> is_directive (lines ! j)"
    then obtain j where "j < length lines" and "is_header (lines ! j)"
      by (auto simp: is_header_def)
    then show "\<exists>l\<in>set lines. is_header l"
      using nth_mem by blast
  qed
  with assms show ?thesis
    by (simp add: rewrite_loop_eq line_output_def)
qed

theorem directive_precedence_witness:
  "fst (rewrite_loop [''socks5 [ProxyList]\<newline>''] ([], False)) ! 0
     = ''# socks5 [ProxyList]\<newline>'' \<and>
   \<not> snd (rewrite_loop [''socks5 [ProxyList]\<newline>''] ([], False))"
proof -
  have h1: "0 < length [''socks5 [ProxyList]\<newline>'']"
    by simp
  have h2: "is_directive ([''socks5 [ProxyList]\<newline>''] ! 0)"
    by (simp add: is_directive_def strip_def isspace_def)
  have h3: "has_marker ([''socks5 [ProxyList]\<newline>''] ! 0)"
    by (simp add: has_marker_def)
  from directive_precedence [OF h1 h2 h3] show ?thesis
    by (simp add: disabled_def)
qed

text \<open>
  C1 as stated fails: the line \<open>socks5 [ProxyList]\<close> is a directive line and holds
  the marker; it is neither written unchanged nor does it mark the section as found.
\<close>

theorem header_precedence_counterexample:
  "is_directive ''socks5 [ProxyList]\<newline>'' \<and>
   has_marker ''socks5 [ProxyList]\<newline>'' \<and>
   rewrite_loop [''socks5 [ProxyList]\<newline>''] ([], False)
     = ([''# socks5 [ProxyList]\<newline>''], False) \<and>
   rewrite_loop [''socks5 [ProxyList]\<newline>''] ([], False)
     \<noteq> ([''socks5 [ProxyList]\<newline>''], True)"
  by (simp add: is_directive_def has_marker_def strip_def isspace_def)

section \<open>The lines of the output file\<close>

lemma splitlines_concat_terminated:
  "(\<And>l. l \<in> set ls \<Longrightarrow> terminated l \<and> LF \<notin> set (butlast l)) \<Longrightarrow>
     splitlines (concat ls @ rest) = ls @ splitlines rest"
proof (induction ls)
  case Nil
  then show ?case by simp
next
  case (Cons l ls)
  then have l: "terminated l" "LF \<notin> set (butlast l)"
    by simp_all
  then have "l = butlast l @ [LF]"
    by (metis terminated_def append_butlast_last_id)
  then have "splitlines (l @ concat ls @ rest) = l # splitlines (concat ls @ rest)"
    using splitlines_terminated [OF l(2), of "concat ls @ rest"]
    by (metis append.assoc append_Cons append_Nil)
  with Cons show ?case by simp
qed

lemma line_output_terminated: "terminated (line_output l) = terminated l"
  by (simp add: line_output_def disabled_def terminated_def)

lemma line_output_LF_butlast:
  "l \<noteq> [] \<Longrightarrow> LF \<notin> set (butlast (line_output l)) \<longleftrightarrow> LF \<notin> set (butlast l)"
  by (simp add: line_output_def disabled_def butlast_append)

lemma line_output_LF: "LF \<in> set (line_output l) \<longleftrightarrow> LF \<in> set l"
  by (simp add: line_output_def disabled_def)

lemma line_output_CR: "CR \<in> set (line_output l) \<longleftrightarrow> CR \<in> set l"
  by (simp add: line_output_def disabled_def)

lemma not_directive_Nil: "\<not> is_directive []"
  by (simp add: is_directive_def strip_def)

lemma line_output_nonempty: "line_output l \<noteq> [] \<longleftrightarrow> l \<noteq> []"
  using not_directive_Nil by (auto simp: line_output_def disabled_def)

lemma readlines_no_CR: "l \<in> set (readlines c) \<Longrightarrow> CR \<notin> set l"
proof -
  assume "l \<in> set (readlines c)"
  then have "set l \<subseteq> set (concat (readlines c))"
    by auto
  then show ?thesis
    using translate_newlines_no_CR [of c]
    by (auto simp: readlines_def concat_splitlines)
qed

lemma rewrite_tail_no_CR: "t \<in> set (rewrite_tail b) \<Longrightarrow> CR \<notin> set t"
  by (auto simp: rewrite_tail_def split: if_splits)

lemma rewrite_config_no_CR: "CR \<notin> set (rewrite_config c)"
  by (auto simp: rewrite_config_def rewrite_writes_eq line_output_CR
      dest: readlines_no_CR rewrite_tail_no_CR)

lemma readlines_rewrite_config:
  "readlines (rewrite_config c) = splitlines (rewrite_config c)"
  by (simp add: readlines_def [of "rewrite_config c"] translate_newlines_id rewrite_config_no_CR)


lemma splitlines_tail_found: "splitlines tor_line = [tor_line]"
  by (simp add: tor_line_def)

lemma readlines_proper:
  assumes "l \<in> set (readlines c)"
  shows "l \<noteq> []" and "LF \<notin> set (butlast l)" and "CR \<notin> set l"
  using assms splitlines_nonempty splitlines_lines readlines_no_CR
  by (auto simp: readlines_def)

lemma lines_all_terminated:
  assumes "readlines c = [] \<or> terminated (last (readlines c))"
    and "l \<in> set (readlines c)"
  shows "terminated l"
proof (cases "l \<in> set (butlast (readlines c))")
  case True
  then show ?thesis
    using splitlines_butlast_terminated by (simp add: readlines_def)
next
  case False
  with assms(2) have "l = last (readlines c)" and "readlines c \<noteq> []"
    by (metis append_butlast_last_id empty_iff list.set(1) rotate1.simps(2) set_ConsD set_rotate1,
        auto)
  with assms(1) show ?thesis by simp
qed

lemma line_output_proper:
  assumes "l \<in> set (readlines c)" and "terminated l"
  shows "terminated (line_output l) \<and> LF \<notin> set (butlast (line_output l))"
  using assms readlines_proper(1,2) [OF assms(1)]
  by (simp add: line_output_terminated line_output_LF_butlast)

text \<open>The lines of the output when every line of the input ends with its newline.\<close>

lemma readlines_output_terminated:
  assumes "readlines c = [] \<or> terminated (last (readlines c))"
  shows "readlines (rewrite_config c) =
           map line_output (readlines c) @
           (if \<exists>l\<in>set (readlines c). is_header l then [tor_line]
            else [''\<newline>'', ''[ProxyList]\<newline>'', tor_line])"
proof -
  have "\<And>l. l \<in> set (map line_output (readlines c)) \<Longrightarrow>
          terminated l \<and> LF \<notin> set (butlast l)"
    using lines_all_terminated [OF assms] line_output_proper by auto
  then have "splitlines (concat (map line_output (readlines c)) @ rest) =
        map line_output (readlines c) @ splitlines rest" for rest
    by (rule splitlines_concat_terminated)
  then show ?thesis
    by (simp add: readlines_rewrite_config)
       (simp add: rewrite_config_def rewrite_writes_eq rewrite_tail_def tor_line_def)
qed

text \<open>The lines of the output when the last line of the input lacks its newline.\<close>

lemma readlines_output_unterminated:
  assumes "readlines c \<noteq> []" and "\<not> terminated (last (readlines c))"
  shows "readlines (rewrite_config c) =
           map line_output (butlast (readlines c)) @
           (if \<exists>l\<in>set (readlines c). is_header l
            then [line_output (last (readlines c)) @ tor_line]
            else [line_output (last (readlines c)) @ ''\<newline>'',
                  ''[ProxyList]\<newline>'', tor_line])"
proof -
  define ls x where "ls = butlast (readlines c)" and "x = last (readlines c)"
  have split: "readlines c = ls @ [x]"
    using assms(1) by (simp add: ls_def x_def)
  have x: "x \<noteq> []" "LF \<notin> set (butlast x)"
    using readlines_proper(1,2) [of x c] split by simp_all
  with assms(2) have "LF \<notin> set x"
    by (metis x_def terminated_def append_butlast_last_id Un_iff set_append
        empty_iff empty_set set_ConsD)
  then have xo: "LF \<notin> set (line_output x)" "line_output x \<noteq> []"
    using x(1) by (simp_all add: line_output_LF line_output_nonempty)
  have "\<And>l. l \<in> set (map line_output ls) \<Longrightarrow> terminated l \<and> LF \<notin> set (butlast l)"
  proof -
    fix l assume "l \<in> set (map line_output ls)"
    then obtain l' where l': "l = line_output l'" "l' \<in> set ls"
      by auto
    then have "terminated l'" and "l' \<in> set (readlines c)"
      using splitlines_butlast_terminated [of l' "translate_newlines c"]
      by (auto simp: ls_def readlines_def dest: in_set_butlastD)
    then show "terminated l \<and> LF \<notin> set (butlast l)"
      using line_output_proper l'(1) by simp
  qed
  then have front: "splitlines (concat (map line_output ls) @ rest) =
        map line_output ls @ splitlines rest" for rest
    by (rule splitlines_concat_terminated)
  have fuse: "splitlines (line_output x @ s) =
        (line_output x @ hd (splitlines s)) # tl (splitlines s)" if "s \<noteq> []" for s
    using splitlines_fuse [OF xo(1) that] .
  have out: "rewrite_config c = concat (map line_output ls) @ line_output x @
        concat (rewrite_tail (\<exists>l\<in>set (readlines c). is_header l))"
    by (simp add: rewrite_config_def rewrite_writes_eq) (simp add: split)
  have "readlines (rewrite_config c) = splitlines (rewrite_config c)"
    by (rule readlines_rewrite_config)
  also have "\<dots> = map line_output ls @ splitlines (line_output x @
        concat (rewrite_tail (\<exists>l\<in>set (readlines c). is_header l)))"
    by (simp only: out front)
  also have "splitlines (line_output x @
        concat (rewrite_tail (\<exists>l\<in>set (readlines c). is_header l))) =
      (if \<exists>l\<in>set (readlines c). is_header l then [line_output x @ tor_line]
       else [line_output x @ ''\<newline>'', ''[ProxyList]\<newline>'', tor_line])"
    by (simp add: fuse rewrite_tail_def tor_line_def)
  finally show ?thesis
    by (simp only: ls_def x_def)
qed

lemma is_header_synthesized: "is_header ''[ProxyList]\<newline>''"
  by (simp add: is_header_def has_marker_def is_directive_def strip_def isspace_def)

lemma is_header_line_output: "is_header l \<Longrightarrow> line_output l = l"
  by (simp add: is_header_def line_output_def)

lemma rerun_lines:
  assumes "readlines c = [] \<or> terminated (last (readlines c))
           \<or> \<not> snd (rewrite_loop (readlines c) ([], False))"
  shows "\<exists>L. readlines (rewrite_config c) = L @ [tor_line] \<and> (\<exists>l\<in>set L. is_header l)"
proof (cases "readlines c = [] \<or> terminated (last (readlines c))")
  case True
  note out = readlines_output_terminated [OF True]
  show ?thesis
  proof (cases "\<exists>l\<in>set (readlines c). is_header l")
    case True
    then obtain l where "l \<in> set (readlines c)" "is_header l"
      by blast
    then have "l \<in> set (map line_output (readlines c))"
      using is_header_line_output by force
    with True out \<open>is_header l\<close> show ?thesis
      by auto
  next
    case False
    with out have "readlines (rewrite_config c) =
        (map line_output (readlines c) @ [''\<newline>'', ''[ProxyList]\<newline>'']) @ [tor_line]"
      by simp
    then show ?thesis
      using is_header_synthesized by fastforce
  qed
next
  case False
  with assms have nf: "\<not> (\<exists>l\<in>set (readlines c). is_header l)"
    by (simp add: rewrite_loop_eq)
  from False have "readlines c \<noteq> []" "\<not> terminated (last (readlines c))"
    by simp_all
  from readlines_output_unterminated [OF this] nf
  have "readlines (rewrite_config c) =
      (map line_output (butlast (readlines c)) @
        [line_output (last (readlines c)) @ ''\<newline>'', ''[ProxyList]\<newline>'']) @ [tor_line]"
    by simp
  then show ?thesis
    using is_header_synthesized by fastforce
qed

section \<open>The step on the file system\<close>

lemma backup_file_neq: "backup_file \<noteq> config_file"
  by (simp add: backup_file_def)

lemma configure_proxychains_missing:
  assumes "fs w config_file = None"
  shows "configure_proxychains w =
           (Inl (SystemExit 1),
            w\<lparr>stdout := stdout w @
                 [''\<newline>[Step 3] Configuring ProxyChains...'',
                  ''[ERROR] ProxyChains configuration file not found at /etc/proxychains4.conf'']\<rparr>)"
  using assms
  by (simp add: configure_proxychains_def print_def sys_exit_def config_file_def)

lemma configure_proxychains_present:
  assumes "fs w config_file = Some c"
  shows "configure_proxychains w =
           (Inr (),
            w\<lparr>stdout := stdout w @
                 [''\<newline>[Step 3] Configuring ProxyChains...'',
                  ''-> Backing up original config to /etc/proxychains4.conf.bak'',
                  if snd (rewrite_loop (readlines c) ([], False))
                  then ''-> Adding Tor SOCKS5 proxy to the configuration.''
                  else ''[WARNING] Could not find '[ProxyList]' section in config file. Adding to the end.'',
                  ''ProxyChains configuration complete.''],
               fs := (fs w)(backup_file \<mapsto> c, config_file \<mapsto> rewrite_config c)\<rparr>)"
  using assms backup_file_neq
  by (simp add: configure_proxychains_def print_def copyfile_def rewrite_block_def
      write_file_def rewrite_config_def rewrite_writes_def split: prod.splits)
     (simp add: config_file_def backup_file_def)

section \<open>The claims about the output file\<close>

text \<open>
  The next three claims speak of the lines of the output file. They are stated for an
  input whose last line ends with its newline: then every write of the rewrite is a run
  of whole lines, and the lines of the output are the writes of the loop followed by
  the lines written after it. What becomes of a last line without its newline is
  stated after them.
\<close>

lemma newline_not_directive: "\<not> is_directive ''\<newline>''"
  by (simp add: is_directive_def strip_def isspace_def)

lemma header_text_not_directive: "\<not> is_directive ''[ProxyList]\<newline>''"
  by (simp add: is_directive_def strip_def isspace_def)

lemma output_tail_directive:
  assumes "t \<in> set (if b then [tor_line] else [''\<newline>'', ''[ProxyList]\<newline>'', tor_line])"
    and "is_directive t"
  shows "t = tor_line"
  using assms newline_not_directive header_text_not_directive
  by (auto split: if_splits)

text \<open>
  C4, as the code has it. For an input whose last line ends with its newline and every
  directive line of it, the line of the output at the same position is \<open>"# "\<close>
  followed by the line; and no line of the output is that line in its undisabled form,
  unless the line is the very directive that the rewrite appends.
\<close>

theorem directives_disabled:
  assumes "terminated (last (readlines c))"
    and "i < length (readlines c)"
    and "is_directive (readlines c ! i)"
  shows "readlines (rewrite_config c) ! i = ''# '' @ readlines c ! i \<and>
         (readlines c ! i \<in> set (readlines (rewrite_config c))
            \<longrightarrow> readlines c ! i = ''socks5 127.0.0.1 9050\<newline>'')"
proof -
  note out = readlines_output_terminated [OF disjI2, OF assms(1)]
  have a: "readlines (rewrite_config c) ! i = ''# '' @ readlines c ! i"
    using assms(2,3) by (simp add: out nth_append line_output_def disabled_def)
  have b: "readlines c ! i = tor_line" if "readlines c ! i \<in> set (readlines (rewrite_config c))"
  proof -
    from that consider "readlines c ! i \<in> line_output ` set (readlines c)"
      | "readlines c ! i \<in> set (if \<exists>l\<in>set (readlines c). is_header l then [tor_line]
            else [''\<newline>'', ''[ProxyList]\<newline>'', tor_line])"
      unfolding out by auto
    then show ?thesis
    proof cases
      case 1
      then show ?thesis using assms(3) line_output_not_directive by force
    next
      case 2
      then show ?thesis using assms(3) by (rule output_tail_directive)
    qed
  qed
  from a b show ?thesis by (auto simp: tor_line_def)
qed

theorem directives_disabled_witness:
  "readlines (rewrite_config ''[ProxyList]\<newline>socks4 10.0.0.1 1080\<newline>'') ! 1
     = ''# socks4 10.0.0.1 1080\<newline>'' \<and>
   ''socks4 10.0.0.1 1080\<newline>''
     \<notin> set (readlines (rewrite_config ''[ProxyList]\<newline>socks4 10.0.0.1 1080\<newline>''))"
proof -
  have r: "readlines ''[ProxyList]\<newline>socks4 10.0.0.1 1080\<newline>''
      = [''[ProxyList]\<newline>'', ''socks4 10.0.0.1 1080\<newline>'']"
    by (simp add: readlines_def)
  have h1: "terminated (last (readlines ''[ProxyList]\<newline>socks4 10.0.0.1 1080\<newline>''))"
    by (simp add: r terminated_def)
  have h2: "1 < length (readlines ''[ProxyList]\<newline>socks4 10.0.0.1 1080\<newline>'')"
    by (simp add: r)
  have h3: "is_directive (readlines ''[ProxyList]\<newline>socks4 10.0.0.1 1080\<newline>'' ! 1)"
    by (simp add: r is_directive_def strip_def isspace_def)
  from directives_disabled [OF h1 h2 h3] show ?thesis
    by (auto simp: r)
qed

text \<open>
  C4 as stated fails on a file that already holds the line that the rewrite appends:
  the output holds that directive line in its undisabled form.
\<close>

theorem undisabled_original_counterexample:
  "readlines ''[ProxyList]\<newline>socks5 127.0.0.1 9050\<newline>''
     = [''[ProxyList]\<newline>'', ''socks5 127.0.0.1 9050\<newline>''] \<and>
   is_directive ''socks5 127.0.0.1 9050\<newline>'' \<and>
   rewrite_config ''[ProxyList]\<newline>socks5 127.0.0.1 9050\<newline>''
     = ''[ProxyList]\<newline># socks5 127.0.0.1 9050\<newline>socks5 127.0.0.1 9050\<newline>'' \<and>
   ''socks5 127.0.0.1 9050\<newline>''
     \<in> set (readlines (rewrite_config ''[ProxyList]\<newline>socks5 127.0.0.1 9050\<newline>''))"
  by (simp add: rewrite_config_def readlines_def rewrite_writes_def rewrite_tail_def
      is_directive_def strip_def isspace_def)

text \<open>
  C5, as the code has it. For an input whose last line ends with its newline and in
  which some line holds the marker and is not a directive line, the lines of the output
  are those written by the loop, one for each line of the input, followed by exactly
  one more line: the appended directive. Every line that holds the marker and is not a
  directive line is a line of the output unchanged, at its own position, however many
  there are.
\<close>

theorem header_found_appends_once:
  assumes "terminated (last (readlines c))"
    and "l \<in> set (readlines c)" and "has_marker l" and "\<not> is_directive l"
  shows "readlines (rewrite_config c)
           = fst (rewrite_loop (readlines c) ([], False)) @ [''socks5 127.0.0.1 9050\<newline>''] \<and>
         length (fst (rewrite_loop (readlines c) ([], False))) = length (readlines c) \<and>
         (\<forall>i<length (readlines c).
            has_marker (readlines c ! i) \<and> \<not> is_directive (readlines c ! i) \<longrightarrow>
            readlines (rewrite_config c) ! i = readlines c ! i)"
proof -
  have "\<exists>l\<in>set (readlines c). is_header l"
    using assms(2-4) by (auto simp: is_header_def)
  then have "readlines (rewrite_config c) = map line_output (readlines c) @ [tor_line]"
    using readlines_output_terminated [OF disjI2, OF assms(1)] by simp
  then show ?thesis
    by (simp add: rewrite_loop_eq tor_line_def nth_append line_output_def)
qed

theorem header_found_appends_once_witness:
  "readlines (rewrite_config ''[ProxyList]\<newline>x\<newline>[ProxyList]\<newline>'')
     = [''[ProxyList]\<newline>'', ''x\<newline>'', ''[ProxyList]\<newline>'',
        ''socks5 127.0.0.1 9050\<newline>'']"
proof -
  have r: "readlines ''[ProxyList]\<newline>x\<newline>[ProxyList]\<newline>''
      = [''[ProxyList]\<newline>'', ''x\<newline>'', ''[ProxyList]\<newline>'']"
    by (simp add: readlines_def)
  have h1: "terminated (last (readlines ''[ProxyList]\<newline>x\<newline>[ProxyList]\<newline>''))"
    by (simp add: r terminated_def)
  have h2: "''[ProxyList]\<newline>''
              \<in> set (readlines ''[ProxyList]\<newline>x\<newline>[ProxyList]\<newline>'')"
    by (simp add: r)
  have h3: "has_marker ''[ProxyList]\<newline>''"
    by (simp add: has_marker_def)
  have h4: "\<not> is_directive ''[ProxyList]\<newline>''"
    by (simp add: is_directive_def strip_def isspace_def)
  from header_found_appends_once [OF h1 h2 h3 h4] show ?thesis
    by (simp add: r strip_def isspace_def)
qed

text \<open>
  C5 as stated fails when the only line with the marker is a directive line: that line
  is not a line of the output, and a header is synthesized besides.
\<close>

theorem marker_in_directive_counterexample:
  "readlines ''http [ProxyList]\<newline>'' = [''http [ProxyList]\<newline>''] \<and>
   has_marker ''http [ProxyList]\<newline>'' \<and>
   readlines (rewrite_config ''http [ProxyList]\<newline>'')
     = [''# http [ProxyList]\<newline>'', ''\<newline>'', ''[ProxyList]\<newline>'',
        ''socks5 127.0.0.1 9050\<newline>''] \<and>
   ''http [ProxyList]\<newline>'' \<notin> set (readlines (rewrite_config ''http [ProxyList]\<newline>''))"
  by (simp add: rewrite_config_def readlines_def rewrite_writes_def rewrite_tail_def
      has_marker_def strip_def isspace_def)




text \<open>
  C9, as the code has it. If the last line of the input lacks its newline, the text
  appended after the loop follows the characters of that line at once. With the section
  found, the last line derived from the input and the appended directive are one line
  of the output. With no section found, the newline that opens the synthesized text ends
  that last line, and the synthesized header and the directive are lines of their own.
\<close>

theorem unterminated_last_line:
  assumes "readlines c \<noteq> []" and "\<not> terminated (last (readlines c))"
  shows "readlines (rewrite_config c) =
           (case rewrite_loop (readlines c) ([], False) of
              (f, found_proxy_list) \<Rightarrow>
                butlast f @
                (if found_proxy_list then [last f @ ''socks5 127.0.0.1 9050\<newline>'']
                 else [last f @ ''\<newline>'', ''[ProxyList]\<newline>'',
                       ''socks5 127.0.0.1 9050\<newline>'']))"
  using assms readlines_output_unterminated [OF assms]
  by (simp add: rewrite_loop_eq map_butlast last_map tor_line_def)

theorem unterminated_last_line_witness:
  "readlines (rewrite_config ''[ProxyList]\<newline>foo'')
     = [''[ProxyList]\<newline>'', ''foosocks5 127.0.0.1 9050\<newline>'']"
proof -
  have h1: "readlines ''[ProxyList]\<newline>foo'' \<noteq> []"
    by (simp add: readlines_def)
  have h2: "\<not> terminated (last (readlines ''[ProxyList]\<newline>foo''))"
    by (simp add: readlines_def terminated_def)
  from unterminated_last_line [OF h1 h2] show ?thesis
    by (simp add: readlines_def [of "''[ProxyList]\<newline>foo''"] strip_def isspace_def)
qed

text \<open>
  C9 as stated fails when no section is found: for the input \<open>foo\<close> with no newline,
  the appended directive is a line of its own in the output, and so is the header.
\<close>

theorem no_fusion_counterexample:
  "readlines ''foo'' = [''foo''] \<and> \<not> terminated ''foo'' \<and>
   rewrite_config ''foo'' = ''foo\<newline>[ProxyList]\<newline>socks5 127.0.0.1 9050\<newline>'' \<and>
   readlines (rewrite_config ''foo'')
     = [''foo\<newline>'', ''[ProxyList]\<newline>'', ''socks5 127.0.0.1 9050\<newline>'']"
  by (simp add: rewrite_config_def readlines_def rewrite_writes_def rewrite_tail_def
      terminated_def strip_def isspace_def)

text \<open>
  C10. A line that holds the marker and is not a directive line, a commented header
  such as \<open># [ProxyList]\<close> among them, counts as the section header: the section is
  found, the only text written after the loop is the appended directive, and no write
  with the marker in it is made besides those of the loop. So when every line with the
  marker starts with \<open>#\<close> in the input, the same holds of the output.
\<close>

theorem commented_header_counts:
  assumes "l \<in> set lines" and "has_marker l" and "\<not> is_directive l"
  shows "snd (rewrite_loop lines ([], False)) \<and>
         rewrite_writes lines = fst (rewrite_loop lines ([], False)) @ [tor_line] \<and>
         filter has_marker (rewrite_writes lines)
           = filter has_marker (fst (rewrite_loop lines ([], False))) \<and>
         ((\<forall>h\<in>set lines. has_marker h \<longrightarrow> startswith h ''#'') \<longrightarrow>
          (\<forall>t\<in>set (rewrite_writes lines). has_marker t \<longrightarrow> startswith t ''#''))"
proof -
  have found: "\<exists>l\<in>set lines. is_header l"
    using assms by (auto simp: is_header_def)
  then have writes: "rewrite_writes lines = map line_output lines @ [tor_line]"
    by (simp add: rewrite_writes_eq rewrite_tail_def tor_line_def)
  have "startswith t ''#''"
    if all: "\<forall>h\<in>set lines. has_marker h \<longrightarrow> startswith h ''#''"
      and t: "t \<in> set (rewrite_writes lines)" "has_marker t" for t
  proof -
    from t tor_line_no_marker obtain h where h: "h \<in> set lines" "t = line_output h"
      by (auto simp: writes)
    show ?thesis
    proof (cases "is_directive h")
      case True
      then show ?thesis by (simp add: h line_output_def disabled_def)
    next
      case False
      then show ?thesis using all h t(2) by (simp add: line_output_def)
    qed
  qed
  with found writes show ?thesis
    by (simp add: rewrite_loop_eq tor_line_no_marker)
qed

theorem commented_header_counts_witness:
  "rewrite_writes [''# [ProxyList]\<newline>'']
     = [''# [ProxyList]\<newline>'', ''socks5 127.0.0.1 9050\<newline>''] \<and>
   filter has_marker (rewrite_writes [''# [ProxyList]\<newline>'']) = [''# [ProxyList]\<newline>'']"
proof -
  have h1: "''# [ProxyList]\<newline>'' \<in> set [''# [ProxyList]\<newline>'']"
    by simp
  have h2: "has_marker ''# [ProxyList]\<newline>''"
    by (simp add: has_marker_def)
  have h3: "\<not> is_directive ''# [ProxyList]\<newline>''"
    by (simp add: is_directive_def strip_def isspace_def)
  from commented_header_counts [OF h1 h2 h3] show ?thesis
    by (simp add: tor_line_def has_marker_def strip_def isspace_def)
qed

text \<open>
  C3, as the code has it. For the configuration file \<open>"# comment only\n"\<close> the step
  leaves \<open>"# comment only\n\n[ProxyList]\nsocks5 127.0.0.1 9050\n"\<close>: no empty line
  stands between the synthesized header and the directive.
\<close>

theorem comment_only_scenario:
  assumes "fs w config_file = Some ''# comment only\<newline>''"
  shows "fst (configure_proxychains w) = Inr () \<and>
         fs (snd (configure_proxychains w)) config_file
           = Some ''# comment only\<newline>\<newline>[ProxyList]\<newline>socks5 127.0.0.1 9050\<newline>''"
  by (simp add: configure_proxychains_present [OF assms])
     (simp add: rewrite_config_def readlines_def rewrite_writes_def rewrite_tail_def
      strip_def isspace_def)

theorem comment_only_scenario_witness:
  "fs (snd (configure_proxychains
        \<lparr>euid = 0, stdin = [], stdout = [],
         fs = [config_file \<mapsto> ''# comment only\<newline>''], ext = (), ran = []\<rparr>)) config_file
     = Some ''# comment only\<newline>\<newline>[ProxyList]\<newline>socks5 127.0.0.1 9050\<newline>''"
  using comment_only_scenario
    [of "\<lparr>euid = 0, stdin = [], stdout = [],
         fs = [config_file \<mapsto> ''# comment only\<newline>''], ext = (), ran = []\<rparr>"]
  by simp

text \<open>C3 as stated fails: the output is not the text that the claim gives.\<close>

theorem comment_only_counterexample:
  "fs (snd (configure_proxychains
        \<lparr>euid = 0, stdin = [], stdout = [],
         fs = [config_file \<mapsto> ''# comment only\<newline>''], ext = (), ran = []\<rparr>)) config_file
     \<noteq> Some ''# comment only\<newline>\<newline>[ProxyList]\<newline>\<newline>socks5 127.0.0.1 9050\<newline>''"
  by (simp add: configure_proxychains_present)
     (simp add: rewrite_config_def readlines_def rewrite_writes_def rewrite_tail_def
      strip_def isspace_def)

text \<open>
  C8. If the configuration file does not exist when the step runs, the step prints the
  error and exits with status 1; whatever statements follow it are not run; the file
  system is as before, so no backup exists that did not exist and the configuration
  file is still absent; no command is run.
\<close>

theorem missing_config_aborts:
  assumes "fs w config_file = None"
  shows "configure_proxychains w =
           (Inl (SystemExit 1),
            w\<lparr>stdout := stdout w @
                 [''\<newline>[Step 3] Configuring ProxyChains...'',
                  ''[ERROR] ProxyChains configuration file not found at /etc/proxychains4.conf'']\<rparr>) \<and>
         exit_status (fst (run_all (configure_proxychains # rest) w)) = 1 \<and>
         fs (snd (run_all (configure_proxychains # rest) w)) = fs w \<and>
         fs (snd (run_all (configure_proxychains # rest) w)) backup_file = fs w backup_file \<and>
         fs (snd (run_all (configure_proxychains # rest) w)) config_file = None \<and>
         ran (snd (run_all (configure_proxychains # rest) w)) = ran w"
  using assms by (simp add: configure_proxychains_missing)

theorem missing_config_aborts_witness:
  "configure_proxychains
     \<lparr>euid = 0, stdin = [], stdout = [], fs = Map.empty, ext = (), ran = []\<rparr>
   = (Inl (SystemExit 1),
      \<lparr>euid = 0, stdin = [],
       stdout = [''\<newline>[Step 3] Configuring ProxyChains...'',
                 ''[ERROR] ProxyChains configuration file not found at /etc/proxychains4.conf''],
       fs = Map.empty, ext = (), ran = []\<rparr>)"
  using missing_config_aborts
    [of "\<lparr>euid = 0, stdin = [], stdout = [], fs = Map.empty, ext = (), ran = []\<rparr>" "[]"]
  by simp

text \<open>
  C2, as the code has it. Running the step twice is not idempotent. When the directive
  appended by the first run is a line of its own (the input is empty, or its last line
  ends with a newline, or no section was found), the second run writes that line in its
  disabled form and appends the directive once more. The backup made by the second run
  replaces the first: it holds the output of the first run.
\<close>

theorem rerun_disables_appended_line:
  assumes "fs w config_file = Some c"
    and "readlines c = [] \<or> terminated (last (readlines c))
         \<or> \<not> snd (rewrite_loop (readlines c) ([], False))"
    and "configure_proxychains w = (r1, w1)"
    and "configure_proxychains w1 = (r2, w2)"
  shows "r1 = Inr () \<and> r2 = Inr () \<and>
         fs w1 backup_file = Some c \<and>
         fs w1 config_file = Some (rewrite_config c) \<and>
         fs w2 backup_file = Some (rewrite_config c) \<and>
         fs w2 config_file = Some (rewrite_config (rewrite_config c)) \<and>
         last (readlines (rewrite_config c)) = ''socks5 127.0.0.1 9050\<newline>'' \<and>
         rewrite_writes (readlines (rewrite_config c)) =
           fst (rewrite_loop (butlast (readlines (rewrite_config c))) ([], False))
           @ [''# socks5 127.0.0.1 9050\<newline>'', ''socks5 127.0.0.1 9050\<newline>'']"
proof -
  from assms(1,3) have w1: "r1 = Inr ()" "fs w1 backup_file = Some c"
      "fs w1 config_file = Some (rewrite_config c)"
    using backup_file_neq by (auto simp: configure_proxychains_present)
  from assms(4) w1(3) have w2: "r2 = Inr ()" "fs w2 backup_file = Some (rewrite_config c)"
      "fs w2 config_file = Some (rewrite_config (rewrite_config c))"
    using backup_file_neq by (auto simp: configure_proxychains_present)
  from rerun_lines [OF assms(2)] obtain L
    where L: "readlines (rewrite_config c) = L @ [tor_line]" "\<exists>l\<in>set L. is_header l"
    by blast
  have "line_output tor_line = disabled tor_line"
    by (simp add: line_output_def is_directive_tor_line)
  with L have "last (readlines (rewrite_config c)) = tor_line"
    and "rewrite_writes (readlines (rewrite_config c)) =
           fst (rewrite_loop (butlast (readlines (rewrite_config c))) ([], False))
           @ [disabled tor_line, tor_line]"
    by (auto simp: rewrite_writes_eq rewrite_loop_eq rewrite_tail_def tor_line_def)
  with w1 w2 show ?thesis
    by (simp add: tor_line_def disabled_def)
qed

theorem rerun_disables_appended_line_witness:
  "fs (snd (configure_proxychains (snd (configure_proxychains
        \<lparr>euid = 0, stdin = [], stdout = [],
         fs = [config_file \<mapsto> ''x\<newline>''], ext = (), ran = []\<rparr>)))) backup_file
     = Some ''x\<newline>\<newline>[ProxyList]\<newline>socks5 127.0.0.1 9050\<newline>'' \<and>
   rewrite_writes (readlines (rewrite_config ''x\<newline>''))
     = [''x\<newline>'', ''\<newline>'', ''[ProxyList]\<newline>'',
        ''# socks5 127.0.0.1 9050\<newline>'', ''socks5 127.0.0.1 9050\<newline>'']"
proof -
  let ?w = "\<lparr>euid = 0, stdin = [], stdout = [],
         fs = [config_file \<mapsto> ''x\<newline>''], ext = (), ran = []\<rparr> :: unit world"
  have h1: "fs ?w config_file = Some ''x\<newline>''"
    by simp
  have h2: "readlines ''x\<newline>'' = [] \<or> terminated (last (readlines ''x\<newline>''))
         \<or> \<not> snd (rewrite_loop (readlines ''x\<newline>'') ([], False))"
    by (simp add: readlines_def terminated_def)
  have h3: "configure_proxychains ?w
      = (fst (configure_proxychains ?w), snd (configure_proxychains ?w))"
    by simp
  have h4: "configure_proxychains (snd (configure_proxychains ?w))
      = (fst (configure_proxychains (snd (configure_proxychains ?w))),
         snd (configure_proxychains (snd (configure_proxychains ?w))))"
    by simp
  have r1: "rewrite_config ''x\<newline>'' = ''x\<newline>\<newline>[ProxyList]\<newline>socks5 127.0.0.1 9050\<newline>''"
    by (simp add: rewrite_config_def readlines_def rewrite_writes_def rewrite_tail_def
        strip_def isspace_def)
  have r2: "readlines ''x\<newline>\<newline>[ProxyList]\<newline>socks5 127.0.0.1 9050\<newline>''
      = [''x\<newline>'', ''\<newline>'', ''[ProxyList]\<newline>'', ''socks5 127.0.0.1 9050\<newline>'']"
    by (simp add: readlines_def)
  from rerun_disables_appended_line [OF h1 h2 h3 h4] show ?thesis
    by (simp add: r1 r2 strip_def isspace_def)
qed

text \<open>
  C2 as stated fails: on the file \<open>"[ProxyList]\n"\<close> the second run disables the
  directive that the first run appended.
\<close>

theorem rerun_counterexample:
  "fs (snd (configure_proxychains
        \<lparr>euid = 0, stdin = [], stdout = [],
         fs = [config_file \<mapsto> ''[ProxyList]\<newline>''], ext = (), ran = []\<rparr>)) config_file
     = Some ''[ProxyList]\<newline>socks5 127.0.0.1 9050\<newline>'' \<and>
   fs (snd (configure_proxychains (snd (configure_proxychains
        \<lparr>euid = 0, stdin = [], stdout = [],
         fs = [config_file \<mapsto> ''[ProxyList]\<newline>''], ext = (), ran = []\<rparr>)))) config_file
     = Some ''[ProxyList]\<newline># socks5 127.0.0.1 9050\<newline>socks5 127.0.0.1 9050\<newline>''"
proof -
  have r1: "rewrite_config ''[ProxyList]\<newline>'' = ''[ProxyList]\<newline>socks5 127.0.0.1 9050\<newline>''"
    by (simp add: rewrite_config_def readlines_def rewrite_writes_def rewrite_tail_def
        strip_def isspace_def)
  have r2: "rewrite_config ''[ProxyList]\<newline>socks5 127.0.0.1 9050\<newline>''
      = ''[ProxyList]\<newline># socks5 127.0.0.1 9050\<newline>socks5 127.0.0.1 9050\<newline>''"
    by (simp add: rewrite_config_def readlines_def rewrite_writes_def rewrite_tail_def
        strip_def isspace_def)
  show ?thesis
    by (simp add: configure_proxychains_present r1 r2)
qed

section \<open>The exit status of the process\<close>

lemma sound_run_all: "(\<And>m. m \<in> set ms \<Longrightarrow> sound m) \<Longrightarrow> sound (run_all ms)"
proof (induction ms)
  case Nil
  then show ?case by (simp add: sound_def)
next
  case (Cons m ms)
  then have m: "sound m" and ms: "sound (run_all ms)"
    by simp_all
  show ?case
    unfolding sound_def
  proof
    fix w
    obtain r w' where mw: "m w = (r, w')"
      by (cases "m w")
    show "(fst (run_all (m # ms) w) = Inr () \<or> exit_status (fst (run_all (m # ms) w)) = 1) \<and>
          (all_checked_ok (ran w) \<and> fst (run_all (m # ms) w) = Inr ()
             \<longrightarrow> all_checked_ok (ran (snd (run_all (m # ms) w))))"
    proof (cases r)
      case (Inl e)
      with mw m show ?thesis
        by (auto simp: sound_def dest: spec [of _ w])
    next
      case (Inr u)
      with mw m ms show ?thesis
        by (auto simp: sound_def dest: spec [of _ w] spec [of _ w'])
    qed
  qed
qed

lemma sound_print: "sound (print t)"
  by (simp add: sound_def print_def)

lemma sound_sys_exit: "sound (sys_exit 1)"
  by (simp add: sound_def sys_exit_def)

lemma sound_input: "sound input"
  by (simp add: sound_def input_def split: list.splits)

lemma sound_os_remove: "sound (os_remove p)"
  by (simp add: sound_def os_remove_def split: option.splits)

lemma sound_write_file: "sound (write_file p t)"
  by (simp add: sound_def write_file_def)

lemma sound_copyfile: "sound (copyfile p q)"
  by (simp add: sound_def copyfile_def split: option.splits)

lemma sound_cmd: "sound (cmd sh c chk)"
  by (auto simp: sound_def cmd_def run_cmd_def all_checked_ok_def Let_def split: prod.splits)

lemma sound_if: "sound m \<Longrightarrow> sound (\<lambda>w. if b w then m w else (Inr (), w))"
  by (simp add: sound_def)

lemma sound_remove_if_exists: "sound (remove_if_exists p t)"
  unfolding remove_if_exists_def [abs_def]
  by (intro sound_if sound_run_all) (auto simp: sound_print sound_os_remove)

lemma sound_rewrite_block: "sound rewrite_block"
  by (simp add: sound_def rewrite_block_def print_def write_file_def Let_def
      split: option.splits prod.splits)

lemmas sound_basic = sound_print sound_sys_exit sound_input sound_os_remove sound_write_file
  sound_copyfile sound_cmd sound_remove_if_exists sound_rewrite_block

lemma sound_cleanup: "sound (cleanup_existing_install sh)"
  unfolding cleanup_existing_install_def
  by (rule sound_run_all) (auto simp: sound_basic)

lemma sound_install: "sound (install_tor_and_proxychains sh)"
  unfolding install_tor_and_proxychains_def
  by (rule sound_run_all) (auto simp: sound_basic)

lemma sound_configure: "sound configure_proxychains"
  unfolding configure_proxychains_def
  by (rule sound_run_all)
     (auto simp: sound_basic intro!: sound_if sound_run_all)

lemma sound_start: "sound (start_tor_and_provide_instructions sh)"
  unfolding start_tor_and_provide_instructions_def
  by (rule sound_run_all) (auto simp: sound_basic)

lemma sound_prelude: "sound main_prelude"
  unfolding main_prelude_def
  by (rule sound_run_all)
     (auto simp: sound_basic intro!: sound_if sound_run_all)

lemma sound_main: "sound (main sh)"
  unfolding main_def
  by (rule sound_run_all)
     (auto simp: sound_basic sound_cleanup sound_install sound_configure sound_start sound_prelude)

lemma run_all_raises: "fst (m w) = Inl e \<Longrightarrow> run_all (m # ms) w = m w"
  by (cases "m w") auto

lemma prelude_not_root:
  assumes "euid w \<noteq> 0"
  shows "fst (main_prelude w) = Inl (SystemExit 1) \<or> fst (main_prelude w) = Inl EOFError"
    and "fs (snd (main_prelude w)) = fs w"
    and "ran (snd (main_prelude w)) = ran w"
  using assms
  by (auto simp: main_prelude_def print_def input_def sys_exit_def split: list.splits)

lemma main_not_root:
  assumes "euid w \<noteq> 0"
  shows "exit_status (fst (main sh w)) = 1 \<and> fs (snd (main sh w)) = fs w
         \<and> ran (snd (main sh w)) = ran w"
proof -
  from prelude_not_root(1) [OF assms] obtain e
    where e: "fst (main_prelude w) = Inl e" "exit_status (Inl e) = 1"
    by auto
  from e(1) have "main sh w = main_prelude w"
    unfolding main_def by (rule run_all_raises)
  with e prelude_not_root(2,3) [OF assms] show ?thesis
    by simp
qed

lemma main_missing_config:
  assumes "main_prelude w = (Inr (), w0)"
    and "cleanup_existing_install sh w0 = (Inr (), w1)"
    and "install_tor_and_proxychains sh w1 = (Inr (), w2)"
    and "fs w2 config_file = None"
  shows "fst (main sh w) = Inl (SystemExit 1)" and "fs (snd (main sh w)) = fs w2"
    and "ran (snd (main sh w)) = ran w2"
  using assms by (simp_all add: main_def configure_proxychains_missing)

lemma main_checked_failure:
  assumes "all_checked_ok (ran w)"
    and "(command, True, returncode) \<in> set (ran (snd (main sh w)))"
    and "returncode \<noteq> 0"
  shows "exit_status (fst (main sh w)) = 1"
proof -
  have "\<not> all_checked_ok (ran (snd (main sh w)))"
    using assms(2,3)
    by (auto simp: all_checked_ok_def list_all_iff intro!: bexI [of _ "(command, True, returncode)"])
  with assms(1) sound_main [of sh] show ?thesis
    unfolding sound_def by blast
qed

lemma run_cmd_checked_failure:
  assumes "fst (sh command (fs w, ext w)) \<noteq> 0"
  shows "fst (run_cmd sh command True w) = Inl (SystemExit 1)"
  using assms by (auto simp: run_cmd_def Let_def split: prod.splits)

lemmas run_defs = main_def main_prelude_def cleanup_existing_install_def
  install_tor_and_proxychains_def configure_proxychains_def
  start_tor_and_provide_instructions_def rewrite_block_def remove_if_exists_def
  cmd_def run_cmd_def print_def input_def sys_exit_def os_remove_def write_file_def
  copyfile_def config_file_def backup_file_def readlines_def strip_def isspace_def

text \<open>
  C7. The exit status of the process is 0 when \<open>main\<close> returns and 1 whenever it does
  not. It is 1 when the effective user is not root, and then the file system is as
  before and no command has been run; it is 1 when the steps before
  \<open>configure_proxychains\<close> have returned and the configuration file does not exist;
  it is 1 when, from an empty log, some command run with \<open>check\<close> set has returned a
  non-zero code. The last conjunct is the same for one call of \<open>run_cmd\<close>.
\<close>

theorem exit_status_cases:
  "(fst (main sh w) = Inr () \<longrightarrow> exit_status (fst (main sh w)) = 0) \<and>
   (fst (main sh w) \<noteq> Inr () \<longrightarrow> exit_status (fst (main sh w)) = 1) \<and>
   (euid w \<noteq> 0 \<longrightarrow>
      exit_status (fst (main sh w)) = 1 \<and> fs (snd (main sh w)) = fs w \<and>
      ran (snd (main sh w)) = ran w) \<and>
   (main_prelude w = (Inr (), w0) \<and> cleanup_existing_install sh w0 = (Inr (), w1) \<and>
    install_tor_and_proxychains sh w1 = (Inr (), w2) \<and> fs w2 config_file = None \<longrightarrow>
      exit_status (fst (main sh w)) = 1) \<and>
   (ran w = [] \<and> (command, True, returncode) \<in> set (ran (snd (main sh w))) \<and>
    returncode \<noteq> 0 \<longrightarrow>
      exit_status (fst (main sh w)) = 1) \<and>
   (fst (sh command (fs w, ext w)) \<noteq> 0 \<longrightarrow>
      exit_status (map_sum id (\<lambda>r. ()) (fst (run_cmd sh command True w))) = 1)"
proof -
  have a: "fst (main sh w) \<noteq> Inr () \<longrightarrow> exit_status (fst (main sh w)) = 1"
    using sound_main [of sh] unfolding sound_def by blast
  have b: "euid w \<noteq> 0 \<longrightarrow>
      exit_status (fst (main sh w)) = 1 \<and> fs (snd (main sh w)) = fs w \<and>
      ran (snd (main sh w)) = ran w"
    using main_not_root by blast
  have c: "main_prelude w = (Inr (), w0) \<and> cleanup_existing_install sh w0 = (Inr (), w1) \<and>
    install_tor_and_proxychains sh w1 = (Inr (), w2) \<and> fs w2 config_file = None \<longrightarrow>
      exit_status (fst (main sh w)) = 1"
    using main_missing_config(1) [of w w0 sh w1 w2] by simp
  have d: "ran w = [] \<and> (command, True, returncode) \<in> set (ran (snd (main sh w))) \<and>
    returncode \<noteq> 0 \<longrightarrow> exit_status (fst (main sh w)) = 1"
    using main_checked_failure [of w command returncode sh]
    by (simp add: all_checked_ok_def)
  have e: "fst (sh command (fs w, ext w)) \<noteq> 0 \<longrightarrow>
      exit_status (map_sum id (\<lambda>r. ()) (fst (run_cmd sh command True w))) = 1"
    by (simp add: run_cmd_checked_failure)
  from a b c d e show ?thesis
    by simp
qed

theorem exit_status_cases_witness:
  "exit_status (fst (main (\<lambda>c s. (0, s))
      \<lparr>euid = 0, stdin = [''''], stdout = [],
       fs = [config_file \<mapsto> ''[ProxyList]\<newline>''], ext = (), ran = []\<rparr>)) = 0 \<and>
   exit_status (fst (main (\<lambda>c s. (0, s))
      \<lparr>euid = 1000, stdin = [''''], stdout = [],
       fs = [config_file \<mapsto> ''[ProxyList]\<newline>''], ext = (), ran = []\<rparr>)) = 1 \<and>
   fs (snd (main (\<lambda>c s. (0, s))
      \<lparr>euid = 1000, stdin = [''''], stdout = [],
       fs = [config_file \<mapsto> ''[ProxyList]\<newline>''], ext = (), ran = []\<rparr>))
     = [config_file \<mapsto> ''[ProxyList]\<newline>''] \<and>
   exit_status (fst (main (\<lambda>c s. (0, s))
      \<lparr>euid = 0, stdin = [''''], stdout = [], fs = Map.empty, ext = (), ran = []\<rparr>)) = 1 \<and>
   exit_status (fst (main (\<lambda>c s. (1, s))
      \<lparr>euid = 0, stdin = [''''], stdout = [],
       fs = [config_file \<mapsto> ''[ProxyList]\<newline>''], ext = (), ran = []\<rparr>)) = 1 \<and>
   exit_status (map_sum id (\<lambda>r. ()) (fst (run_cmd (\<lambda>c s. (1, s)) ''apt update'' True
      \<lparr>euid = 0, stdin = [], stdout = [], fs = Map.empty, ext = (), ran = []\<rparr>))) = 1"
proof -
  let ?ok = "\<lambda>(c :: string) (s :: (string \<rightharpoonup> string) \<times> unit). (0 :: int, s)"
  let ?fail = "\<lambda>(c :: string) (s :: (string \<rightharpoonup> string) \<times> unit). (1 :: int, s)"
  let ?root = "\<lparr>euid = 0, stdin = [''''], stdout = [],
       fs = [config_file \<mapsto> ''[ProxyList]\<newline>''], ext = (), ran = []\<rparr>"
  let ?user = "\<lparr>euid = 1000, stdin = [''''], stdout = [],
       fs = [config_file \<mapsto> ''[ProxyList]\<newline>''], ext = (), ran = []\<rparr>"
  let ?bare = "\<lparr>euid = 0, stdin = [''''], stdout = [], fs = Map.empty, ext = (), ran = []\<rparr>"
  let ?none = "\<lparr>euid = 0, stdin = [], stdout = [], fs = Map.empty, ext = (), ran = []\<rparr>"
  let ?w0 = "snd (main_prelude ?bare)"
  let ?w1 = "snd (cleanup_existing_install ?ok ?w0)"
  let ?w2 = "snd (install_tor_and_proxychains ?ok ?w1)"
  have completes: "fst (main ?ok ?root) = Inr ()"
    by (simp add: run_defs)
  have not_root: "euid ?user \<noteq> 0"
    by simp
  have missing: "main_prelude ?bare = (Inr (), ?w0) \<and>
      cleanup_existing_install ?ok ?w0 = (Inr (), ?w1) \<and>
      install_tor_and_proxychains ?ok ?w1 = (Inr (), ?w2) \<and> fs ?w2 config_file = None"
    by (simp add: run_defs)
  have failed: "ran ?root = [] \<and>
      (''apt autoremove -y'', True, 1) \<in> set (ran (snd (main ?fail ?root))) \<and> (1 :: int) \<noteq> 0"
    by (simp add: run_defs)
  have nonzero: "fst (?fail ''apt update'' (fs ?none, ext ?none)) \<noteq> 0"
    by simp
  have a: "exit_status (fst (main ?ok ?root)) = 0"
    using exit_status_cases [where sh = ?ok and w = ?root] completes by blast
  have b: "exit_status (fst (main ?ok ?user)) = 1 \<and> fs (snd (main ?ok ?user)) = fs ?user"
    using exit_status_cases [where sh = ?ok and w = ?user] not_root by blast
  have c: "exit_status (fst (main ?ok ?bare)) = 1"
    using exit_status_cases [where sh = ?ok and w = ?bare and ?w0.0 = ?w0 and ?w1.0 = ?w1
        and ?w2.0 = ?w2] missing by blast
  have d: "exit_status (fst (main ?fail ?root)) = 1"
    using exit_status_cases [where sh = ?fail and w = ?root and command = "''apt autoremove -y''"
        and returncode = 1] failed by blast
  have e: "exit_status (map_sum id (\<lambda>r. ()) (fst (run_cmd ?fail ''apt update'' True ?none))) = 1"
    using exit_status_cases [where sh = ?fail and w = ?none and command = "''apt update''"]
      nonzero by blast
  from a b c d e show ?thesis
    by simp
qed

end
